theory Spec2Isabelle
  imports Main "HOL-Library.Sublist"
begin

section \<open>Python string primitives used by the path handling\<close>

text \<open>
  Strings are character lists. Only the library calls that \<open>parse_path\<close> and
  \<open>step_status\<close> make are modelled: \<open>str.split(sep)\<close>, \<open>str.strip(chars)\<close> for a
  one-character argument, \<open>str.endswith\<close>, list indexing at position 1 and
  \<open>re.match\<close> for the single pattern the repository uses.
\<close>

datatype error =
    KeyError string
  | IndexError
  | AttributeError
  | ValueError
  | TypeError
  | EOFError
  | ClientError string
  | DecodeError string

text \<open>
  \<open>s.split(sep)\<close>: scan from the left; wherever \<open>sep\<close> starts, close the current
  piece and jump over the separator (occurrences are non-overlapping). An empty
  separator raises \<open>ValueError\<close>.
\<close>

fun split_from :: "string \<Rightarrow> string \<Rightarrow> string \<Rightarrow> string list" where
  "split_from sep cur [] = [cur]"
| "split_from sep cur (c # cs) =
     (if prefix sep (c # cs)
      then cur # split_from sep [] (drop (length sep - 1) cs)
      else split_from sep (cur @ [c]) cs)"

definition py_split :: "string \<Rightarrow> string \<Rightarrow> error + string list" where
  "py_split s sep = (if sep = [] then Inl ValueError else Inr (split_from sep [] s))"

text \<open>\<open>xs[1]\<close> raises \<open>IndexError\<close> on a list with fewer than two elements.\<close>

fun index1 :: "'a list \<Rightarrow> error + 'a" where
  "index1 (x # y # ys) = Inr y"
| "index1 xs = Inl IndexError"

text \<open>\<open>s.strip("/")\<close> removes every leading and every trailing slash.\<close>

definition py_strip :: "char \<Rightarrow> string \<Rightarrow> string" where
  "py_strip c s = rev (dropWhile (\<lambda>x. x = c) (rev (dropWhile (\<lambda>x. x = c) s)))"

definition endswith :: "string \<Rightarrow> string \<Rightarrow> bool" where
  "endswith s suf \<longleftrightarrow> length suf \<le> length s \<and> drop (length s - length suf) s = suf"

text \<open>
  \<open>re.match(r"s3:\/\/.*?\/", path)\<close>: the match is anchored at the start, the
  lazy \<open>.*?\<close> takes the fewest characters that let the final slash match, and \<open>.\<close>
  does not match a newline. So the match is \<open>s3://\<close>, the characters up to the
  first later slash, and that slash, provided no newline comes before it; otherwise
  the result is \<open>None\<close>.
\<close>

definition re_match_s3 :: "string \<Rightarrow> string option" where
  "re_match_s3 path =
     (if prefix ''s3://'' path
      then (let rest = drop 5 path; b = takeWhile (\<lambda>c. c \<noteq> CHR ''/'') rest
            in if length b < length rest \<and> CHR 0x0A \<notin> set b
               then Some (''s3://'' @ b @ ''/'')
               else None)
      else None)"

section \<open>s3\_manager.parse\_path\<close>

record parsed_path =
  path :: string
  bucket :: string
  key :: string

text \<open>
  \<open>re.match(...).group()\<close> raises \<open>AttributeError\<close> when there is no match;
  the two \<open>[1]\<close> subscripts raise \<open>IndexError\<close> on a short list.
\<close>

definition parse_path :: "string \<Rightarrow> error + parsed_path" where
  "parse_path p =
     (case re_match_s3 p of
        None \<Rightarrow> Inl AttributeError
      | Some regex \<Rightarrow>
          (case py_split regex ''s3://'' of
             Inl e \<Rightarrow> Inl e
           | Inr pieces \<Rightarrow>
               (case index1 pieces of
                  Inl e \<Rightarrow> Inl e
                | Inr b \<Rightarrow>
                    (case py_split p regex of
                       Inl e \<Rightarrow> Inl e
                     | Inr pieces' \<Rightarrow>
                         (case index1 pieces' of
                            Inl e \<Rightarrow> Inl e
                          | Inr k \<Rightarrow>
                              Inr \<lparr>path = p, bucket = py_strip (CHR ''/'') b, key = k\<rparr>)))))"

section \<open>cluster\_manager: replies of the remote services\<close>

text \<open>
  The reply of \<open>describe_step\<close>, restricted to the fields \<open>step_status\<close> reads.
  The four fields it reads unconditionally are plain; \<open>FailureDetails\<close>, whose
  presence it tests, and \<open>Reason\<close> and \<open>LogFile\<close> inside it are optional, as a key
  of a Python dictionary may be absent.
\<close>

record failure_reply =
  Reason :: "string option"
  LogFile :: "string option"

record step_reply =
  Name :: string
  Args :: "string list"
  ActionOnFailure :: string
  State :: string
  FailureDetails :: "failure_reply option"

text \<open>
  \<open>s3_client.get_object\<close> yields a body, raises \<open>NoSuchKey\<close>, or raises some other
  exception, named by a string.
\<close>

datatype s3_reply = Body string | NoSuchKey | Failure string

record job_flow_reply =
  JobFlowId :: "string option"

text \<open>
  The environment of a \<open>ClusterManager\<close>. \<open>describe_step env cluster step n\<close> is the
  reply to the \<open>n\<close>-th call (counted from 0) that the running process makes, so the
  remote step may change state between two calls. \<open>decompress\<close> stands for
  \<open>decompress(data.read()).decode("unicode-escape")\<close>, which returns the text or
  raises.
\<close>

record env =
  describe_step :: "string \<Rightarrow> string \<Rightarrow> nat \<Rightarrow> step_reply"
  get_object :: "string \<Rightarrow> string \<Rightarrow> s3_reply"
  decompress :: "string \<Rightarrow> error + string"
  run_job_flow :: "string \<Rightarrow> job_flow_reply"
  list_steps :: "string \<Rightarrow> error + string list"

section \<open>cluster\_manager: the state of a manager\<close>

type_synonym callback = string

datatype proc =
    Poll_proc string string
  | Listener_proc "callback option" "string option"

text \<open>One constructor for each \<open>print\<close> statement, with the values it formats.\<close>

datatype notice =
    JobFlowId_missing
  | Step_shutdown string string
  | Waiting_for string "string option"
  | Watching string "string option"
  | Updated_every nat
  | Step_state string string
  | Invalid_callback_arg "string list"
  | Log_not_found string string

text \<open>
  \<open>pipe\<close> holds the states sent on \<open>_tx_poll\<close> and not yet received on \<open>_rx_poll\<close>,
  oldest first; \<open>tx_closed\<close> records \<open>_tx_poll.close()\<close>. \<open>calls\<close> counts the
  \<open>describe_step\<close> calls made so far, \<open>slept\<close> lists the arguments of \<open>sleep\<close>,
  \<open>procs\<close> the processes started, \<open>invoked\<close> the callbacks called.
\<close>

record cm_state =
  poll_time :: nat
  keep_alive :: bool
  pipe :: "string list"
  tx_closed :: bool
  calls :: nat
  slept :: "nat list"
  printed :: "notice list"
  procs :: "proc list"
  invoked :: "callback list"

definition init :: cm_state where
  "init = \<lparr>poll_time = 60, keep_alive = False, pipe = [], tx_closed = False, calls = 0,
           slept = [], printed = [], procs = [], invoked = []\<rparr>"

text \<open>
  How a call ends: it returns, an exception leaves it, or it waits for ever in
  \<open>recv\<close> on an empty pipe whose sending side is open.
\<close>

datatype outcome = Returned | Raised error | Blocked

datatype received = Got string cm_state | Eof | Wait

definition recv :: "cm_state \<Rightarrow> received" where
  "recv s = (case pipe s of
               [] \<Rightarrow> (if tx_closed s then Eof else Wait)
             | m # ms \<Rightarrow> Got m (s\<lparr>pipe := ms\<rparr>))"

section \<open>cluster\_manager.step\_status\<close>

record failure_info =
  reason :: string
  logfile :: string

record status_record =
  name :: string
  parameters :: "string list"
  failure_mode :: string
  state :: string
  failure_details :: "failure_info option"

text \<open>Lines 306 to 308: bucket and key of the log file, as in \<open>parse_path\<close>.\<close>

definition split_logfile :: "string \<Rightarrow> error + string \<times> string" where
  "split_logfile logfile_path =
     (case re_match_s3 logfile_path of
        None \<Rightarrow> Inl AttributeError
      | Some logfile_re \<Rightarrow>
          (case py_split logfile_re ''s3://'' of
             Inl e \<Rightarrow> Inl e
           | Inr pieces \<Rightarrow>
               (case index1 pieces of
                  Inl e \<Rightarrow> Inl e
                | Inr b \<Rightarrow>
                    (case py_split logfile_path logfile_re of
                       Inl e \<Rightarrow> Inl e
                     | Inr pieces' \<Rightarrow>
                         (case index1 pieces' of
                            Inl e \<Rightarrow> Inl e
                          | Inr k \<Rightarrow> Inr (py_strip (CHR ''/'') b, k))))))"

text \<open>Lines 309 and 310.\<close>

definition resolve_key :: "string \<Rightarrow> string" where
  "resolve_key logfile_key =
     (if \<not> endswith logfile_key ''stderr.gz'' then logfile_key @ ''stderr.gz''
      else logfile_key)"

text \<open>The arguments \<open>Bucket\<close> and \<open>Key\<close> that \<open>step_status\<close> passes to \<open>get_object\<close>.\<close>

definition log_request :: "string \<Rightarrow> error + string \<times> string" where
  "log_request logfile_path =
     (case split_logfile logfile_path of
        Inl e \<Rightarrow> Inl e
      | Inr (logfile_bucket, logfile_key) \<Rightarrow> Inr (logfile_bucket, resolve_key logfile_key))"

text \<open>
  \<open>step_status\<close> returns the pair \<open>(output, err)\<close>; the model adds what it printed.
  The reason is read under \<open>try ... except KeyError\<close>, the log file is not. Only
  \<open>NoSuchKey\<close> is caught around the download.
\<close>

definition step_status ::
  "env \<Rightarrow> nat \<Rightarrow> string \<Rightarrow> string \<Rightarrow> error + status_record \<times> string option \<times> notice list" where
  "step_status ev n step_id cluster_id =
     (let response = describe_step ev cluster_id step_id n;
          output = \<lparr>name = Name response, parameters = Args response,
                    failure_mode = ActionOnFailure response, state = State response,
                    failure_details = None\<rparr>
      in case FailureDetails response of
           None \<Rightarrow> Inr (output, None, [])
         | Some fd \<Rightarrow>
             (let reason' = (case Reason fd of None \<Rightarrow> ''Unknown'' | Some r \<Rightarrow> r)
              in case LogFile fd of
                   None \<Rightarrow> Inl (KeyError ''LogFile'')
                 | Some logfile_path \<Rightarrow>
                     (let output' = output\<lparr>failure_details :=
                                       Some \<lparr>reason = reason', logfile = logfile_path\<rparr>\<rparr>
                      in case log_request logfile_path of
                           Inl e \<Rightarrow> Inl e
                         | Inr (logfile_bucket, logfile_key) \<Rightarrow>
                             (case get_object ev logfile_bucket logfile_key of
                                Body data \<Rightarrow>
                                  (case decompress ev data of
                                     Inl e \<Rightarrow> Inl e
                                   | Inr text \<Rightarrow> Inr (output', Some text, []))
                              | NoSuchKey \<Rightarrow>
                                  Inr (output', None, [Log_not_found step_id cluster_id])
                              | Failure x \<Rightarrow> Inl (ClientError x)))))"

text \<open>
  \<open>self.step_status(step_id, cluster_id)[0]["state"]\<close> as the loops use it: one more
  call of the service, whatever \<open>step_status\<close> printed, and the state or the
  exception.
\<close>

definition query :: "env \<Rightarrow> string \<Rightarrow> string \<Rightarrow> cm_state \<Rightarrow> (error + string) \<times> cm_state" where
  "query ev step_id cluster_id s =
     (case step_status ev (calls s) step_id cluster_id of
        Inl e \<Rightarrow> (Inl e, s\<lparr>calls := Suc (calls s)\<rparr>)
      | Inr (output, err, notes) \<Rightarrow>
          (Inr (state output), s\<lparr>calls := Suc (calls s), printed := printed s @ notes\<rparr>))"

section \<open>cluster\_manager: polling, listening, watching\<close>

definition poll_shutdown_states :: "string list" where
  "poll_shutdown_states = [''COMPLETED'', ''CANCELLED'', ''FAILED'', ''INTERRUPTED'']"

definition report_shutdown_states :: "string list" where
  "report_shutdown_states = [''COMPLETED'', ''CANCELLED'', ''FAILED'', ''INTERRUPTED'']"

definition valid_states :: "string list" where
  "valid_states = [''PENDING'', ''CANCEL_PENDING'', ''RUNNING'', ''COMPLETED'', ''CANCELLED'',
                   ''FAILED'', ''INTERRUPTED'']"

text \<open>
  \<open>_poll\<close>: the loop test makes one call of \<open>step_status\<close>, the body makes a second
  one and sends its state. A loop that never ends is the value \<open>None\<close>.
\<close>

partial_function (option) poll ::
  "env \<Rightarrow> string \<Rightarrow> string \<Rightarrow> cm_state \<Rightarrow> (outcome \<times> cm_state) option" where
  "poll ev step_id cluster_id s =
     (case query ev step_id cluster_id s of
        (Inl e, s1) \<Rightarrow> Some (Raised e, s1)
      | (Inr st, s1) \<Rightarrow>
          if st \<notin> set poll_shutdown_states
          then (case query ev step_id cluster_id s1 of
                  (Inl e, s2) \<Rightarrow> Some (Raised e, s2)
                | (Inr st', s2) \<Rightarrow>
                    poll ev step_id cluster_id
                      (s2\<lparr>pipe := pipe s2 @ [st'], slept := slept s2 @ [poll_time s2]\<rparr>))
          else Some (Returned,
                     s1\<lparr>printed := printed s1 @ [Step_shutdown step_id cluster_id],
                        tx_closed := True\<rparr>))"

text \<open>\<open>report_step\<close>: the same test, no send, and one more call for the result.\<close>

partial_function (option) report_step ::
  "env \<Rightarrow> string \<Rightarrow> string \<Rightarrow> cm_state \<Rightarrow> ((error + string) \<times> cm_state) option" where
  "report_step ev step_id cluster_id s =
     (case query ev step_id cluster_id s of
        (Inl e, s1) \<Rightarrow> Some (Inl e, s1)
      | (Inr st, s1) \<Rightarrow>
          if st \<notin> set report_shutdown_states
          then report_step ev step_id cluster_id (s1\<lparr>slept := slept s1 @ [poll_time s1]\<rparr>)
          else Some (query ev step_id cluster_id s1))"

text \<open>
  \<open>_listener\<close>: the loop test receives one state and compares it with
  \<open>callback_arg\<close>; the \<open>print\<close> in the body receives another one. Each round takes
  states off the pipe, so the loop is a total function.
\<close>

function listener_loop :: "string option \<Rightarrow> cm_state \<Rightarrow> outcome \<times> cm_state" where
  "listener_loop callback_arg s =
     (case recv s of
        Eof \<Rightarrow> (Raised EOFError, s)
      | Wait \<Rightarrow> (Blocked, s)
      | Got m s1 \<Rightarrow>
          if Some m \<noteq> callback_arg
          then (case recv s1 of
                  Eof \<Rightarrow> (Raised EOFError, s1)
                | Wait \<Rightarrow> (Blocked, s1)
                | Got m' s2 \<Rightarrow>
                    listener_loop callback_arg
                      (s2\<lparr>printed := printed s2 @ [Waiting_for m' callback_arg]\<rparr>))
          else (Returned, s1))"
  by pat_completeness auto
termination
  by (relation "measure (\<lambda>(a, s). length (pipe s))")
     (auto simp: recv_def split: list.splits if_splits)

text \<open>Calling \<open>callback()\<close> when \<open>callback\<close> is \<open>None\<close> raises \<open>TypeError\<close>.\<close>

definition listener :: "callback option \<Rightarrow> string option \<Rightarrow> cm_state \<Rightarrow> outcome \<times> cm_state" where
  "listener cb callback_arg s =
     (case listener_loop callback_arg s of
        (Returned, s1) \<Rightarrow>
          (case cb of
             None \<Rightarrow> (Raised TypeError, s1)
           | Some f \<Rightarrow> (Returned, s1\<lparr>invoked := invoked s1 @ [f]\<rparr>))
      | (r, s1) \<Rightarrow> (r, s1))"

text \<open>
  \<open>watch_step\<close>, as run by the caller. Starting a process appends it to \<open>procs\<close>;
  the processes themselves are \<open>poll\<close> and \<open>listener\<close> above.
\<close>

definition watch_step ::
  "string \<Rightarrow> string \<Rightarrow> callback option \<Rightarrow> string option \<Rightarrow> cm_state \<Rightarrow> outcome \<times> cm_state" where
  "watch_step step_id cluster_id cb callback_arg s =
     (let s1 = s\<lparr>procs := procs s @ [Poll_proc step_id cluster_id]\<rparr>;
          s2 = s1\<lparr>printed := printed s1 @
                     [Watching step_id callback_arg, Updated_every (poll_time s1)]\<rparr>;
          start = (\<lambda>t. (Returned, t\<lparr>procs := procs t @ [Listener_proc cb callback_arg]\<rparr>))
      in case cb of
           None \<Rightarrow>
             (case recv s2 of
                Eof \<Rightarrow> (Raised EOFError, s2)
              | Wait \<Rightarrow> (Blocked, s2)
              | Got m s3 \<Rightarrow> start (s3\<lparr>printed := printed s3 @ [Step_state step_id m]\<rparr>))
         | Some f \<Rightarrow>
             if (case callback_arg of None \<Rightarrow> True | Some a \<Rightarrow> a \<notin> set valid_states)
             then (Returned, s2\<lparr>printed := printed s2 @ [Invalid_callback_arg valid_states]\<rparr>)
             else start s2)"

section \<open>cluster\_manager: launching clusters\<close>

text \<open>
  The request that \<open>run_job_flow\<close> receives is built from constants and the
  arguments; the model keeps the cluster name, which selects the reply, and the
  handling of the reply.
\<close>

definition launch_cluster :: "env \<Rightarrow> string \<Rightarrow> cm_state \<Rightarrow> string \<times> cm_state" where
  "launch_cluster ev nm s =
     (let s1 = s\<lparr>keep_alive := True\<rparr>;
          response = run_job_flow ev nm
      in case JobFlowId response of
           Some i \<Rightarrow> (i, s1)
         | None \<Rightarrow> ([], s1\<lparr>printed := printed s1 @ [JobFlowId_missing]\<rparr>))"

text \<open>\<open>res[cluster_id].append(step["Id"])\<close> for each listed step, in order.\<close>

fun append_steps ::
  "string \<Rightarrow> string list \<Rightarrow> (string \<rightharpoonup> string list) \<Rightarrow> error + (string \<rightharpoonup> string list)" where
  "append_steps cluster_id [] res = Inr res"
| "append_steps cluster_id (i # is) res =
     (case res cluster_id of
        None \<Rightarrow> Inl (KeyError cluster_id)
      | Some l \<Rightarrow> append_steps cluster_id is (res(cluster_id \<mapsto> l @ [i])))"

definition launch_cluster_with_jobs ::
  "env \<Rightarrow> string \<Rightarrow> cm_state \<Rightarrow> (error + (string \<rightharpoonup> string list)) \<times> cm_state" where
  "launch_cluster_with_jobs ev cluster_name s =
     (let s1 = s\<lparr>keep_alive := False\<rparr>;
          cluster_response = run_job_flow ev (cluster_name @ ''-m2x'');
          (cluster_id, res, s2) =
            (case JobFlowId cluster_response of
               Some i \<Rightarrow> (i, [i \<mapsto> []], s1)
             | None \<Rightarrow> ([], Map.empty, s1\<lparr>printed := printed s1 @ [JobFlowId_missing]\<rparr>))
      in case list_steps ev cluster_id of
           Inl e \<Rightarrow> (Inl e, s2)
         | Inr ids \<Rightarrow> (append_steps cluster_id ids res, s2))"

section \<open>Observations and example environments\<close>

text \<open>
  The state that the \<open>i\<close>-th call of \<open>step_status\<close> shows, or the exception it
  raises: the value of \<open>self.step_status(step_id, cluster_id)[0]["state"]\<close> then.
\<close>

definition observe :: "env \<Rightarrow> string \<Rightarrow> string \<Rightarrow> nat \<Rightarrow> error + string" where
  "observe ev step_id cluster_id i =
     (case step_status ev i step_id cluster_id of
        Inl e \<Rightarrow> Inl e
      | Inr (output, err, notes) \<Rightarrow> Inr (state output))"

text \<open>
  A small environment for concrete runs: the step shows \<open>states n\<close> at the \<open>n\<close>-th
  call, carries the failure details \<open>fd\<close>, every download ends as \<open>s3\<close>, the launch
  reply has no \<open>JobFlowId\<close>, and \<open>list_steps\<close> ends as \<open>steps\<close>.
\<close>

definition example_env ::
  "(nat \<Rightarrow> string) \<Rightarrow> failure_reply option \<Rightarrow> s3_reply \<Rightarrow> error + string list \<Rightarrow> env" where
  "example_env states fd s3 steps =
     \<lparr>describe_step = (\<lambda>cluster_id step_id n.
          \<lparr>Name = ''job'', Args = [''spark-submit''], ActionOnFailure = ''CONTINUE'',
             State = states n, FailureDetails = fd\<rparr>),
       get_object = (\<lambda>b k. s3),
       decompress = (\<lambda>data. Inr data),
       run_job_flow = (\<lambda>nm. \<lparr>JobFlowId = None\<rparr>),
       list_steps = (\<lambda>cluster_id. steps)\<rparr>"

definition running_then_completed :: env where
  "running_then_completed =
     example_env (\<lambda>n. if n < 2 then ''RUNNING'' else ''COMPLETED'') None NoSuchKey (Inr [])"

definition pending_then_completed :: env where
  "pending_then_completed =
     example_env (\<lambda>n. if n < 1 then ''PENDING'' else ''COMPLETED'') None NoSuchKey (Inr [])"

section \<open>The lifecycle poller\<close>

text \<open>
  C1. The claim: when \<open>_poll\<close> observes a state of COMPLETED, CANCELLED, FAILED,
  INTERRUPTED it publishes that state on the channel, closes the sending side and
  stops; any other observed state is published and polling goes on.

  The code tests the state in the loop condition and sends only inside the loop
  body, so the observation that ends the loop is never sent. For a step that shows
  RUNNING twice and COMPLETED from then on, the poller makes three calls, sends
  RUNNING once, sleeps once for 60, prints its notice and closes the pipe: COMPLETED
  is not on the channel.
\<close>

theorem poll_drops_terminal_state:
  "poll running_then_completed ''s-1'' ''j-1'' init =
     Some (Returned,
           init\<lparr>pipe := [''RUNNING''], slept := [60], calls := 3,
                printed := [Step_shutdown ''s-1'' ''j-1''], tx_closed := True\<rparr>)"
  by (simp add: poll.simps query_def step_status_def running_then_completed_def
      example_env_def init_def poll_shutdown_states_def)

text \<open>
  The state that is sent comes from a second call of \<open>step_status\<close>, not from the
  one the loop condition tested: a step seen as PENDING by the test and COMPLETED
  from the next call on has COMPLETED sent, and PENDING never.
\<close>

lemma poll_sends_second_reading:
  "poll pending_then_completed ''s-1'' ''j-1'' init =
     Some (Returned,
           init\<lparr>pipe := [''COMPLETED''], slept := [60], calls := 3,
                printed := [Step_shutdown ''s-1'' ''j-1''], tx_closed := True\<rparr>)"
  by (simp add: poll.simps query_def step_status_def pending_then_completed_def
      example_env_def init_def poll_shutdown_states_def)

section \<open>The listener\<close>

text \<open>
  C2. The claim: \<open>_listener\<close> reads every published state in order and calls the
  callback exactly once at the first state equal to the target, skipping none.

  The code receives one state in the loop condition and a second one inside the
  \<open>print\<close> of the loop body; the second is never compared with the target. With
  RUNNING, COMPLETED published, the pipe then closed, and target COMPLETED, the
  listener compares RUNNING, prints COMPLETED, and its next \<open>recv\<close> raises
  \<open>EOFError\<close>: the callback is not called.
\<close>

theorem listener_misses_target:
  "listener (Some ''cb'') (Some ''COMPLETED'')
       (init\<lparr>pipe := [''RUNNING'', ''COMPLETED''], tx_closed := True\<rparr>) =
     (Raised EOFError,
      init\<lparr>pipe := [], printed := [Waiting_for ''COMPLETED'' (Some ''COMPLETED'')],
           tx_closed := True\<rparr>)"
  by (simp add: listener_def recv_def init_def)

text \<open>
  On RUNNING, RUNNING, COMPLETED the target happens to sit at an odd position: the
  callback is called once, after the third receive, and the second RUNNING was
  printed without being compared.
\<close>

lemma listener_three_states:
  "listener (Some ''cb'') (Some ''COMPLETED'')
       (init\<lparr>pipe := [''RUNNING'', ''RUNNING'', ''COMPLETED''], tx_closed := True\<rparr>) =
     (Returned,
      init\<lparr>pipe := [], printed := [Waiting_for ''RUNNING'' (Some ''COMPLETED'')],
           tx_closed := True, invoked := [''cb'']\<rparr>)"
  by (simp add: listener_def recv_def init_def)

section \<open>Watching a step\<close>

text \<open>
  C3. The claim: a call of \<open>watch_step\<close> with a callback and a target outside the
  seven known states is rejected before the poller is started, so that no poller
  process, no listener process and no channel is created.

  The code starts the poller process in its first two statements and checks the
  target afterwards. With the target BOGUS the poller process has been started
  when the call returns.
\<close>

theorem invalid_target_poller_started_counterexample:
  "''BOGUS'' \<notin> set valid_states \<and> procs init = [] \<and>
   procs (snd (watch_step ''s-1'' ''j-1'' (Some ''cb'') (Some ''BOGUS'') init)) =
     [Poll_proc ''s-1'' ''j-1'']"
  by (simp add: watch_step_def init_def valid_states_def)

text \<open>
  C3, as the code has it: for every callback and every target that is absent or
  not one of the seven known states, \<open>watch_step\<close> starts the poller process,
  prints its two opening lines and the message that lists the valid states, and
  returns; it starts no listener process and reads nothing from the pipe.
\<close>

theorem watch_step_invalid_target:
  assumes "case callback_arg of None \<Rightarrow> True | Some a \<Rightarrow> a \<notin> set valid_states"
  shows "watch_step step_id cluster_id (Some f) callback_arg s =
           (Returned,
            s\<lparr>procs := procs s @ [Poll_proc step_id cluster_id],
              printed := printed s @ [Watching step_id callback_arg, Updated_every (poll_time s),
                                      Invalid_callback_arg valid_states]\<rparr>)"
  using assms by (simp add: watch_step_def Let_def)

theorem watch_step_invalid_target_witness:
  "''BOGUS'' \<notin> set valid_states \<and>
   watch_step ''s-1'' ''j-1'' (Some ''cb'') (Some ''BOGUS'') init =
     (Returned,
      init\<lparr>procs := [Poll_proc ''s-1'' ''j-1''],
           printed := [Watching ''s-1'' (Some ''BOGUS''), Updated_every 60,
                       Invalid_callback_arg valid_states]\<rparr>)"
proof -
  have h: "case Some ''BOGUS'' of None \<Rightarrow> True | Some a \<Rightarrow> a \<notin> set valid_states"
    by (simp add: valid_states_def)
  from watch_step_invalid_target[OF h, of "''s-1''" "''j-1''" "''cb''" init] h
  show ?thesis by (simp add: init_def)
qed






section \<open>The status of a step\<close>

text \<open>
  C5. For a step whose reply carries failure details with a log file from which
  bucket \<open>b\<close> and key \<open>k\<close> are derived: if the download of \<open>k\<close> from \<open>b\<close> raises
  \<open>NoSuchKey\<close>, \<open>step_status\<close> returns the status record with the failure details
  and no diagnostic text, and prints the one notice that the log was not found; if
  the download raises anything else, that exception leaves \<open>step_status\<close>.
\<close>

theorem step_status_log_not_found:
  assumes "FailureDetails (describe_step ev cluster_id step_id n) = Some fd"
      and "LogFile fd = Some p"
      and "log_request p = Inr (b, k)"
  shows "(get_object ev b k = NoSuchKey \<longrightarrow>
            step_status ev n step_id cluster_id =
              Inr (\<lparr>name = Name (describe_step ev cluster_id step_id n),
                     parameters = Args (describe_step ev cluster_id step_id n),
                     failure_mode = ActionOnFailure (describe_step ev cluster_id step_id n),
                     state = State (describe_step ev cluster_id step_id n),
                     failure_details =
                       Some \<lparr>reason = (case Reason fd of None \<Rightarrow> ''Unknown'' | Some r \<Rightarrow> r),
                             logfile = p\<rparr>\<rparr>,
                   None, [Log_not_found step_id cluster_id]))
       \<and> (\<forall>x. get_object ev b k = Failure x \<longrightarrow>
            step_status ev n step_id cluster_id = Inl (ClientError x))"
  using assms by (simp add: step_status_def Let_def)

theorem step_status_log_not_found_witness:
  "log_request ''s3://logs/j-1/steps/s-1/'' = Inr (''logs'', ''j-1/steps/s-1/stderr.gz'')
   \<and> step_status (example_env (\<lambda>n. ''FAILED'')
         (Some \<lparr>Reason = Some ''boom'', LogFile = Some ''s3://logs/j-1/steps/s-1/''\<rparr>)
         NoSuchKey (Inr []))
        0 ''s-1'' ''j-1''
      = Inr (\<lparr>name = ''job'', parameters = [''spark-submit''], failure_mode = ''CONTINUE'',
               state = ''FAILED'',
               failure_details =
                 Some \<lparr>reason = ''boom'', logfile = ''s3://logs/j-1/steps/s-1/''\<rparr>\<rparr>,
             None, [Log_not_found ''s-1'' ''j-1''])
   \<and> step_status (example_env (\<lambda>n. ''FAILED'')
         (Some \<lparr>Reason = Some ''boom'', LogFile = Some ''s3://logs/j-1/steps/s-1/''\<rparr>)
         (Failure ''AccessDenied'') (Inr []))
        0 ''s-1'' ''j-1''
      = Inl (ClientError ''AccessDenied'')"
proof -
  let ?fd = "\<lparr>Reason = Some ''boom'', LogFile = Some ''s3://logs/j-1/steps/s-1/''\<rparr>"
  let ?e1 = "example_env (\<lambda>n. ''FAILED'') (Some ?fd) NoSuchKey (Inr [])"
  let ?e2 = "example_env (\<lambda>n. ''FAILED'') (Some ?fd) (Failure ''AccessDenied'') (Inr [])"
  have r: "log_request ''s3://logs/j-1/steps/s-1/'' = Inr (''logs'', ''j-1/steps/s-1/stderr.gz'')"
    by (simp add: log_request_def split_logfile_def resolve_key_def endswith_def
        re_match_s3_def py_split_def py_strip_def)
  have l: "LogFile ?fd = Some ''s3://logs/j-1/steps/s-1/''"
    by simp
  have f1: "FailureDetails (describe_step ?e1 ''j-1'' ''s-1'' 0) = Some ?fd"
    by (simp add: example_env_def)
  have f2: "FailureDetails (describe_step ?e2 ''j-1'' ''s-1'' 0) = Some ?fd"
    by (simp add: example_env_def)
  have g1: "get_object ?e1 ''logs'' ''j-1/steps/s-1/stderr.gz'' = NoSuchKey"
    by (simp add: example_env_def)
  have g2: "get_object ?e2 ''logs'' ''j-1/steps/s-1/stderr.gz'' = Failure ''AccessDenied''"
    by (simp add: example_env_def)
  from step_status_log_not_found[OF f1 l r] g1
  have a: "step_status ?e1 0 ''s-1'' ''j-1'' =
             Inr (\<lparr>name = ''job'', parameters = [''spark-submit''], failure_mode = ''CONTINUE'',
                    state = ''FAILED'',
                    failure_details =
                      Some \<lparr>reason = ''boom'', logfile = ''s3://logs/j-1/steps/s-1/''\<rparr>\<rparr>,
                  None, [Log_not_found ''s-1'' ''j-1''])"
    by (simp add: example_env_def)
  from step_status_log_not_found[OF f2 l r] g2
  have b: "step_status ?e2 0 ''s-1'' ''j-1'' = Inl (ClientError ''AccessDenied'')"
    by blast
  from r a b show ?thesis by blast
qed

text \<open>
  C7. The key requested from storage is the key of the log file path passed through
  \<open>resolve_key\<close>. For every key, the resolved key ends with \<open>stderr.gz\<close>; the
  suffix is appended exactly when the key does not end with it already; a key that
  ends with it is unchanged; a key that ends with a slash gains the suffix; and
  resolving twice is resolving once.
\<close>

theorem resolve_key_suffix:
  "endswith (resolve_key k) ''stderr.gz''
   \<and> (resolve_key k = k @ ''stderr.gz'' \<longleftrightarrow> \<not> endswith k ''stderr.gz'')
   \<and> (endswith k ''stderr.gz'' \<longrightarrow> resolve_key k = k)
   \<and> resolve_key (d @ ''/'') = d @ ''/stderr.gz''
   \<and> resolve_key (resolve_key k) = resolve_key k
   \<and> (split_logfile p = Inr (b, k') \<longrightarrow> log_request p = Inr (b, resolve_key k'))"
  by (auto simp: resolve_key_def endswith_def log_request_def)

theorem resolve_key_suffix_witness:
  "endswith ''j-1/steps/s-1/stderr.gz'' ''stderr.gz''
   \<and> resolve_key ''j-1/steps/s-1/stderr.gz'' = ''j-1/steps/s-1/stderr.gz''
   \<and> resolve_key ''j-1/steps/s-1/'' = ''j-1/steps/s-1/stderr.gz''
   \<and> split_logfile ''s3://logs/j-1/steps/s-1/'' = Inr (''logs'', ''j-1/steps/s-1/'')
   \<and> log_request ''s3://logs/j-1/steps/s-1/'' = Inr (''logs'', ''j-1/steps/s-1/stderr.gz'')"
proof -
  have e: "endswith ''j-1/steps/s-1/stderr.gz'' ''stderr.gz''"
    by (simp add: endswith_def)
  have sp: "split_logfile ''s3://logs/j-1/steps/s-1/'' = Inr (''logs'', ''j-1/steps/s-1/'')"
    by (simp add: split_logfile_def re_match_s3_def py_split_def py_strip_def)
  from resolve_key_suffix[of "''j-1/steps/s-1/stderr.gz''" "''j-1/steps/s-1''"
      "''s3://logs/j-1/steps/s-1/''" "''logs''" "''j-1/steps/s-1/''"] e sp
  show ?thesis by simp
qed

text \<open>
  C10. For a reply that carries failure details: when \<open>LogFile\<close> is absent,
  \<open>step_status\<close> raises \<open>KeyError\<close> for that key, whatever the reason field holds;
  when \<open>Reason\<close> is absent, \<open>step_status\<close> behaves exactly as if the reason were
  \<open>Unknown\<close>, and every record it returns has that reason.
\<close>

theorem step_status_logfile_unguarded:
  assumes "FailureDetails (describe_step ev cluster_id step_id n) = Some fd"
  shows "(LogFile fd = None \<longrightarrow> step_status ev n step_id cluster_id = Inl (KeyError ''LogFile''))
       \<and> (Reason fd = None \<longrightarrow>
            step_status ev n step_id cluster_id =
            step_status (ev\<lparr>describe_step := (\<lambda>c s m. (describe_step ev c s m)
                              \<lparr>FailureDetails := Some (fd\<lparr>Reason := Some ''Unknown''\<rparr>)\<rparr>)\<rparr>)
              n step_id cluster_id)
       \<and> (Reason fd = None \<longrightarrow>
            (\<forall>out err notes. step_status ev n step_id cluster_id = Inr (out, err, notes) \<longrightarrow>
               map_option reason (failure_details out) = Some ''Unknown''))"
proof (intro conjI)
  show "LogFile fd = None \<longrightarrow> step_status ev n step_id cluster_id = Inl (KeyError ''LogFile'')"
    using assms by (simp add: step_status_def Let_def)
  show "Reason fd = None \<longrightarrow>
          step_status ev n step_id cluster_id =
          step_status (ev\<lparr>describe_step := (\<lambda>c s m. (describe_step ev c s m)
                            \<lparr>FailureDetails := Some (fd\<lparr>Reason := Some ''Unknown''\<rparr>)\<rparr>)\<rparr>)
            n step_id cluster_id"
    using assms
    by (simp add: step_status_def Let_def
        split: option.splits sum.splits s3_reply.splits prod.splits)
  show "Reason fd = None \<longrightarrow>
          (\<forall>out err notes. step_status ev n step_id cluster_id = Inr (out, err, notes) \<longrightarrow>
             map_option reason (failure_details out) = Some ''Unknown'')"
    using assms
    by (auto simp: step_status_def Let_def split: option.splits sum.splits s3_reply.splits)
qed

theorem step_status_logfile_unguarded_witness:
  "step_status (example_env (\<lambda>n. ''FAILED'') (Some \<lparr>Reason = Some ''boom'', LogFile = None\<rparr>)
                  NoSuchKey (Inr [])) 0 ''s-1'' ''j-1'' = Inl (KeyError ''LogFile'')
   \<and> step_status (example_env (\<lambda>n. ''FAILED'')
                  (Some \<lparr>Reason = None, LogFile = Some ''s3://logs/j-1/steps/s-1/''\<rparr>)
                  NoSuchKey (Inr [])) 0 ''s-1'' ''j-1'' =
       Inr (\<lparr>name = ''job'', parameters = [''spark-submit''], failure_mode = ''CONTINUE'',
              state = ''FAILED'',
              failure_details =
                Some \<lparr>reason = ''Unknown'', logfile = ''s3://logs/j-1/steps/s-1/''\<rparr>\<rparr>,
            None, [Log_not_found ''s-1'' ''j-1''])
   \<and> map_option reason (failure_details
         \<lparr>name = ''job'', parameters = [''spark-submit''], failure_mode = ''CONTINUE'',
            state = ''FAILED'',
            failure_details =
              Some \<lparr>reason = ''Unknown'', logfile = ''s3://logs/j-1/steps/s-1/''\<rparr>\<rparr>) =
       Some ''Unknown''"
proof -
  let ?f1 = "\<lparr>Reason = Some ''boom'', LogFile = None\<rparr>"
  let ?f2 = "\<lparr>Reason = None, LogFile = Some ''s3://logs/j-1/steps/s-1/''\<rparr>"
  let ?e1 = "example_env (\<lambda>n. ''FAILED'') (Some ?f1) NoSuchKey (Inr [])"
  let ?e2 = "example_env (\<lambda>n. ''FAILED'') (Some ?f2) NoSuchKey (Inr [])"
  let ?out = "\<lparr>name = ''job'', parameters = [''spark-submit''], failure_mode = ''CONTINUE'',
                state = ''FAILED'',
                failure_details =
                  Some \<lparr>reason = ''Unknown'', logfile = ''s3://logs/j-1/steps/s-1/''\<rparr>\<rparr>"
  have h1: "FailureDetails (describe_step ?e1 ''j-1'' ''s-1'' 0) = Some ?f1"
    by (simp add: example_env_def)
  have h2: "FailureDetails (describe_step ?e2 ''j-1'' ''s-1'' 0) = Some ?f2"
    by (simp add: example_env_def)
  have a: "step_status ?e1 0 ''s-1'' ''j-1'' = Inl (KeyError ''LogFile'')"
    using step_status_logfile_unguarded[OF h1] by simp
  have r: "step_status ?e2 0 ''s-1'' ''j-1'' = Inr (?out, None, [Log_not_found ''s-1'' ''j-1''])"
    by (simp add: step_status_def example_env_def log_request_def split_logfile_def
        resolve_key_def endswith_def re_match_s3_def py_split_def py_strip_def)
  have n: "Reason ?f2 = None"
    by simp
  from step_status_logfile_unguarded[OF h2] n r
  have u: "map_option reason (failure_details ?out) = Some ''Unknown''"
    by blast
  from a r u show ?thesis by blast
qed

section \<open>Paths\<close>

text \<open>
  C6. The claim: for every path \<open>s3://bucket/key\<close>, \<open>parse_path\<close> returns the bucket
  and the key, and \<open>s3://\<close>, the bucket, a slash and the key give the path back.

  The code takes the key as \<open>path.split(regex)[1]\<close>, the piece between the first
  and the second occurrence of \<open>s3://bucket/\<close>. A key that contains that text again
  is cut there: for \<open>s3://b/x/s3://b/y\<close> the key returned is \<open>x/\<close>, and the path is
  not recovered.
\<close>

theorem parse_path_repeated_prefix:
  "parse_path ''s3://b/x/s3://b/y'' =
     Inr \<lparr>path = ''s3://b/x/s3://b/y'', bucket = ''b'', key = ''x/''\<rparr>
   \<and> ''s3://'' @ ''b'' @ ''/'' @ ''x/'' \<noteq> ''s3://b/x/s3://b/y''"
  by (simp add: parse_path_def re_match_s3_def py_split_def py_strip_def)

text \<open>The example of the specification, and the path of the repository's test.\<close>

lemma parse_path_example:
  "parse_path ''s3://some-bucket/a/b/c'' =
     Inr \<lparr>path = ''s3://some-bucket/a/b/c'', bucket = ''some-bucket'', key = ''a/b/c''\<rparr>"
  by (simp add: parse_path_def re_match_s3_def py_split_def py_strip_def)

lemma parse_path_test_parser:
  "parse_path ''s3://some-bucket/some_path_a/some_path_b/some_destination'' =
     Inr \<lparr>path = ''s3://some-bucket/some_path_a/some_path_b/some_destination'',
          bucket = ''some-bucket'',
          key = ''some_path_a/some_path_b/some_destination''\<rparr>"
  by (simp add: parse_path_def re_match_s3_def py_split_def py_strip_def)

text \<open>
  Where the text \<open>s3://bucket/\<close> does not occur in the key, and the bucket has no
  slash and no newline, the path is parsed as intended: the key may be empty and
  may contain slashes.
\<close>

lemma split_from_absent:
  assumes "\<And>i. \<not> prefix sep (drop i s)"
  shows "split_from sep cur s = [cur @ s]"
  using assms
proof (induction s arbitrary: cur)
  case Nil
  then show ?case by simp
next
  case (Cons c cs)
  have "\<not> prefix sep (c # cs)" using Cons.prems[of 0] by simp
  moreover have "\<And>i. \<not> prefix sep (drop i cs)" using Cons.prems[of "Suc _"] by simp
  ultimately show ?case using Cons.IH by simp
qed

lemma split_from_leading:
  assumes "sep \<noteq> []" and "\<And>i. \<not> prefix sep (drop i s)"
  shows "split_from sep [] (sep @ s) = [[], s]"
proof -
  obtain c cs where sep: "sep = c # cs" using assms(1) by (cases sep) auto
  have "split_from sep [] (c # (cs @ s)) = [] # split_from sep [] (drop (length sep - 1) (cs @ s))"
    by (simp add: sep)
  also have "drop (length sep - 1) (cs @ s) = s" by (simp add: sep)
  finally show ?thesis using split_from_absent[OF assms(2), of "[]"] by (simp add: sep)
qed

lemma scheme_absent:
  assumes "CHR ''/'' \<notin> set b"
  shows "\<not> prefix ''s3://'' (drop i (b @ ''/''))"
proof
  assume "prefix ''s3://'' (drop i (b @ ''/''))"
  then obtain r where r: "drop i (b @ ''/'') = ''s3://'' @ r"
    by (auto simp: prefix_def)
  have "take i (b @ ''/'') @ drop i (b @ ''/'') = b @ ''/''"
    by (rule append_take_drop_id)
  then obtain t where eq: "b @ ''/'' = t @ ''s3://'' @ r"
    unfolding r by metis
  have "\<exists>u v. b = u @ CHR ''/'' # v"
  proof (cases r rule: rev_cases)
    case Nil
    with eq have "b @ [CHR ''/''] = (t @ ''s3:/'') @ [CHR ''/'']"
      by simp
    then have "b = t @ ''s3:/''"
      by (simp only: append1_eq_conv)
    then have "b = (t @ ''s3:'') @ CHR ''/'' # []"
      by simp
    then show ?thesis by blast
  next
    case (snoc r' x)
    with eq have "b @ [CHR ''/''] = (t @ ''s3://'' @ r') @ [x]"
      by simp
    then have "b = t @ ''s3://'' @ r'"
      by (simp only: append1_eq_conv)
    then have "b = (t @ ''s3:'') @ CHR ''/'' # (''/'' @ r')"
      by simp
    then show ?thesis by blast
  qed
  then have "CHR ''/'' \<in> set b"
    by auto
  with assms show False by simp
qed

lemma py_strip_bucket:
  assumes "CHR ''/'' \<notin> set b"
  shows "py_strip (CHR ''/'') (b @ ''/'') = b"
proof -
  have keep: "dropWhile (\<lambda>x. x = CHR ''/'') xs = xs" if "CHR ''/'' \<notin> set xs" for xs
    using that by (cases xs) auto
  have "dropWhile (\<lambda>x. x = CHR ''/'') (b @ ''/'') = (if b = [] then [] else b @ ''/'')"
    using assms by (cases b) auto
  moreover have "dropWhile (\<lambda>x. x = CHR ''/'') (rev (b @ ''/'')) = rev b"
    using keep[of "rev b"] assms by simp
  moreover have "dropWhile (\<lambda>x. x = CHR ''/'') (rev []) = []"
    by simp
  ultimately show ?thesis
    by (simp add: py_strip_def)
qed

lemma parse_path_round_trip:
  assumes "CHR ''/'' \<notin> set b" and "CHR 0x0A \<notin> set b"
      and "\<And>i. \<not> prefix (''s3://'' @ b @ ''/'') (drop i k)"
  shows "parse_path (''s3://'' @ b @ ''/'' @ k) =
           Inr \<lparr>path = ''s3://'' @ b @ ''/'' @ k, bucket = b, key = k\<rparr>"
proof -
  have tw: "takeWhile (\<lambda>c. c \<noteq> CHR ''/'') (b @ ''/'' @ k) = b"
    using assms(1) by (auto simp: takeWhile_tail)
  have m: "re_match_s3 (''s3://'' @ b @ ''/'' @ k) = Some (''s3://'' @ b @ ''/'')"
    using assms(2) tw by (simp add: re_match_s3_def Let_def)
  have s1: "split_from ''s3://'' [] (''s3://'' @ (b @ ''/'')) = [[], b @ ''/'']"
    by (rule split_from_leading) (simp, rule scheme_absent[OF assms(1)])
  have s2: "split_from (''s3://'' @ b @ ''/'') [] ((''s3://'' @ b @ ''/'') @ k) = [[], k]"
    by (rule split_from_leading) (simp, rule assms(3))
  show ?thesis
    using m s1 s2 py_strip_bucket[OF assms(1)]
    by (simp add: parse_path_def py_split_def)
qed

section \<open>Launching a cluster\<close>

text \<open>
  C8. The claim: \<open>launch_cluster\<close> and \<open>launch_cluster_with_jobs\<close> return the
  cluster identifier when the reply has one, and otherwise report the error and
  return normally.

  \<open>launch_cluster_with_jobs\<close> prints the error and then goes on with the empty
  identifier: it calls \<open>list_steps\<close> with it, and appends to \<open>res[""]\<close>, an entry that
  was never made. If \<open>list_steps\<close> raises, the exception leaves the function; if it
  lists a step, the append raises \<open>KeyError\<close>.
\<close>

theorem launch_cluster_with_jobs_missing_id:
  "launch_cluster_with_jobs
      (example_env (\<lambda>n. ''RUNNING'') None NoSuchKey (Inl (ClientError ''InvalidRequestException'')))
      ''nightly'' init =
     (Inl (ClientError ''InvalidRequestException''), init\<lparr>printed := [JobFlowId_missing]\<rparr>)
   \<and> launch_cluster_with_jobs
      (example_env (\<lambda>n. ''RUNNING'') None NoSuchKey (Inr [''s-1'']))
      ''nightly'' init =
     (Inl (KeyError []), init\<lparr>printed := [JobFlowId_missing]\<rparr>)"
  by (simp add: launch_cluster_with_jobs_def example_env_def init_def)

text \<open>
  \<open>launch_cluster\<close> itself does what the claim says: the identifier when the reply
  has one, and otherwise the printed error and the empty string.
\<close>

lemma launch_cluster_reply:
  "launch_cluster ev nm s =
     (case JobFlowId (run_job_flow ev nm) of
        Some i \<Rightarrow> (i, s\<lparr>keep_alive := True\<rparr>)
      | None \<Rightarrow> ([], s\<lparr>keep_alive := True, printed := printed s @ [JobFlowId_missing]\<rparr>))"
  by (simp add: launch_cluster_def Let_def split: option.splits)

section \<open>The blocking wait\<close>

lemma query_observed:
  assumes "observe ev sid cid (calls s) = Inr t"
  shows "\<exists>s1. query ev sid cid s = (Inr t, s1) \<and> calls s1 = Suc (calls s) \<and> slept s1 = slept s
            \<and> pipe s1 = pipe s \<and> tx_closed s1 = tx_closed s \<and> procs s1 = procs s
            \<and> poll_time s1 = poll_time s \<and> invoked s1 = invoked s"
  using assms by (auto simp: observe_def query_def split: sum.splits)

text \<open>
  C9. Let the step show a state outside the shutdown table at each of the next
  \<open>n\<close> calls, then a state \<open>t\<close> of the table, and \<open>t\<close> again at the call after that
  (the state is final). Then \<open>report_step\<close> returns, and returns \<open>t\<close>; it has slept
  \<open>n\<close> times, each time for the manager's \<open>poll_time\<close>, has made \<open>n + 2\<close> calls, and
  has left the pipe and the processes alone. Its shutdown table is the poller's, and
  the \<open>poll_time\<close> both read is 60 in a new manager.
\<close>

theorem report_step_final_state:
  assumes "\<forall>i<n. \<exists>u. observe ev sid cid (calls s + i) = Inr u \<and> u \<notin> set report_shutdown_states"
      and "observe ev sid cid (calls s + n) = Inr t"
      and "t \<in> set report_shutdown_states"
      and "observe ev sid cid (calls s + n + 1) = Inr t"
  shows "\<exists>s'. report_step ev sid cid s = Some (Inr t, s')
            \<and> slept s' = slept s @ replicate n (poll_time s)
            \<and> calls s' = calls s + n + 2
            \<and> pipe s' = pipe s \<and> tx_closed s' = tx_closed s \<and> procs s' = procs s
            \<and> report_shutdown_states = poll_shutdown_states \<and> poll_time init = 60"
  using assms
proof (induction n arbitrary: s)
  case 0
  from query_observed[of ev sid cid s t] 0(2)
  obtain s1 where q1: "query ev sid cid s = (Inr t, s1)" and c1: "calls s1 = Suc (calls s)"
    and r1: "slept s1 = slept s" "pipe s1 = pipe s" "tx_closed s1 = tx_closed s" "procs s1 = procs s"
    by auto
  from query_observed[of ev sid cid s1 t] 0(4) c1
  obtain s2 where q2: "query ev sid cid s1 = (Inr t, s2)" and c2: "calls s2 = Suc (calls s1)"
    and r2: "slept s2 = slept s1" "pipe s2 = pipe s1" "tx_closed s2 = tx_closed s1" "procs s2 = procs s1"
    by auto
  have "report_step ev sid cid s = Some (Inr t, s2)"
    by (subst report_step.simps) (simp add: q1 q2 0(3))
  then show ?case using c1 c2 r1 r2
    by (simp add: report_shutdown_states_def poll_shutdown_states_def init_def)
next
  case (Suc n)
  have "0 < Suc n" by simp
  with Suc.prems(1)
  have "\<exists>u. observe ev sid cid (calls s + 0) = Inr u \<and> u \<notin> set report_shutdown_states"
    by blast
  then obtain u where u: "observe ev sid cid (calls s) = Inr u" "u \<notin> set report_shutdown_states"
    by auto
  from query_observed[OF u(1)] obtain s1 where q1: "query ev sid cid s = (Inr u, s1)"
    and c1: "calls s1 = Suc (calls s)"
    and r1: "slept s1 = slept s" "pipe s1 = pipe s" "tx_closed s1 = tx_closed s" "procs s1 = procs s"
      "poll_time s1 = poll_time s"
    by blast
  define s2 where "s2 = s1\<lparr>slept := slept s1 @ [poll_time s1]\<rparr>"
  have c2: "calls s2 = Suc (calls s)" and r2: "slept s2 = slept s @ [poll_time s]" "pipe s2 = pipe s"
    "tx_closed s2 = tx_closed s" "procs s2 = procs s" "poll_time s2 = poll_time s"
    by (simp_all add: s2_def c1 r1)
  have step: "report_step ev sid cid s = report_step ev sid cid s2"
    by (subst report_step.simps) (simp add: q1 u(2) s2_def)
  have a: "\<forall>i<n. \<exists>u. observe ev sid cid (calls s2 + i) = Inr u \<and> u \<notin> set report_shutdown_states"
  proof (intro allI impI)
    fix i assume "i < n"
    then have "Suc i < Suc n" by simp
    with Suc.prems(1)
    have "\<exists>u. observe ev sid cid (calls s + Suc i) = Inr u \<and> u \<notin> set report_shutdown_states"
      by blast
    then show "\<exists>u. observe ev sid cid (calls s2 + i) = Inr u \<and> u \<notin> set report_shutdown_states"
      by (simp add: c2)
  qed
  have b: "observe ev sid cid (calls s2 + n) = Inr t"
    using Suc.prems(2) by (simp add: c2)
  have c: "observe ev sid cid (calls s2 + n + 1) = Inr t"
    using Suc.prems(4) by (simp add: c2)
  from Suc.IH[OF a b Suc.prems(3) c] obtain s' where
    "report_step ev sid cid s2 = Some (Inr t, s')" "slept s' = slept s2 @ replicate n (poll_time s2)"
    "calls s' = calls s2 + n + 2" "pipe s' = pipe s2" "tx_closed s' = tx_closed s2" "procs s' = procs s2"
    by blast
  then show ?case
    by (simp add: step c2 r2 replicate_app_Cons_same report_shutdown_states_def
        poll_shutdown_states_def init_def)
qed

theorem report_step_final_state_witness:
  "\<exists>s'. report_step running_then_completed ''s-1'' ''j-1'' init = Some (Inr ''COMPLETED'', s')
        \<and> slept s' = [60, 60] \<and> calls s' = 4 \<and> pipe s' = [] \<and> \<not> tx_closed s' \<and> procs s' = []"
proof -
  have o: "\<And>i. observe running_then_completed ''s-1'' ''j-1'' i =
             Inr (if i < 2 then ''RUNNING'' else ''COMPLETED'')"
    by (simp add: observe_def step_status_def running_then_completed_def example_env_def)
  have c: "calls init = 0" "poll_time init = 60" "slept init = []" "pipe init = []"
    "tx_closed init = False" "procs init = []"
    by (simp_all add: init_def)
  have h1: "\<forall>i<2. \<exists>u. observe running_then_completed ''s-1'' ''j-1'' (calls init + i) = Inr u
              \<and> u \<notin> set report_shutdown_states"
    by (simp add: o c report_shutdown_states_def)
  have h2: "observe running_then_completed ''s-1'' ''j-1'' (calls init + 2) = Inr ''COMPLETED''"
    by (simp add: o c)
  have h3: "''COMPLETED'' \<in> set report_shutdown_states"
    by (simp add: report_shutdown_states_def)
  have h4: "observe running_then_completed ''s-1'' ''j-1'' (calls init + 2 + 1) = Inr ''COMPLETED''"
    by (simp add: o c)
  have rep: "replicate 2 (60::nat) = [60, 60]"
    by (simp add: numeral_2_eq_2)
  from report_step_final_state[OF h1 h2 h3 h4] obtain s' where
    "report_step running_then_completed ''s-1'' ''j-1'' init = Some (Inr ''COMPLETED'', s')"
    "slept s' = slept init @ replicate 2 (poll_time init)" "calls s' = calls init + 2 + 2"
    "pipe s' = pipe init" "tx_closed s' = tx_closed init" "procs s' = procs init"
    by blast
  then show ?thesis
    by (intro exI[of _ s']) (simp add: c rep)
qed

end
